theory Spec2Isabelle
  imports Complex_Main "HOL-Library.Monad_Syntax"
begin

section \<open>Force-directed 3D layout: the model\<close>

text \<open>
  The development follows \<^verbatim>\<open>src/data/calculate_positions.py\<close>. Floating-point
  numbers are idealised as real numbers. A row of the position array is a vector of three
  reals; the position and displacement arrays are lists of such rows.
\<close>

subsection \<open>Vectors of three reals\<close>

datatype vec3 = Vec3 (vx: real) (vy: real) (vz: real)

instantiation vec3 :: ab_group_add
begin

definition zero_vec3 :: vec3 where
  "zero_vec3 = Vec3 0 0 0"

definition plus_vec3 :: "vec3 \<Rightarrow> vec3 \<Rightarrow> vec3" where
  "plus_vec3 a b = Vec3 (vx a + vx b) (vy a + vy b) (vz a + vz b)"

definition minus_vec3 :: "vec3 \<Rightarrow> vec3 \<Rightarrow> vec3" where
  "minus_vec3 a b = Vec3 (vx a - vx b) (vy a - vy b) (vz a - vz b)"

definition uminus_vec3 :: "vec3 \<Rightarrow> vec3" where
  "uminus_vec3 a = Vec3 (- vx a) (- vy a) (- vz a)"

instance
  by standard
    (simp_all add: zero_vec3_def plus_vec3_def minus_vec3_def uminus_vec3_def vec3.expand)

end

text \<open>\<^verbatim>\<open>v * s\<close>: a row times a scalar.\<close>

definition smul :: "vec3 \<Rightarrow> real \<Rightarrow> vec3" where
  "smul v s = Vec3 (vx v * s) (vy v * s) (vz v * s)"

text \<open>\<^verbatim>\<open>np.linalg.norm\<close> of a row.\<close>

definition norm3 :: "vec3 \<Rightarrow> real" where
  "norm3 v = sqrt (vx v * vx v + vy v * vy v + vz v * vz v)"

subsection \<open>Errors and divisions\<close>

text \<open>
  Python's own division raises \<^verbatim>\<open>ZeroDivisionError\<close>; \<^verbatim>\<open>np.max\<close> of an
  empty array raises \<^verbatim>\<open>ValueError\<close>. A division of numpy values by zero raises
  nothing: it yields an infinity or a NaN. The model makes that outcome explicit: a numpy
  division returns \<open>None\<close> when the divisor is zero, and a run in which that happens ends
  in \<open>NonFinite\<close>.
\<close>

datatype error = ZeroDivisionError | ValueError | NonFinite

definition np_divide :: "real \<Rightarrow> real \<Rightarrow> real option" where
  "np_divide a b = (if b = 0 then None else Some (a / b))"

definition vdivide :: "vec3 \<Rightarrow> real \<Rightarrow> vec3 option" where
  "vdivide v b = (if b = 0 then None else Some (Vec3 (vx v / b) (vy v / b) (vz v / b)))"

text \<open>A \<^verbatim>\<open>for\<close> loop over a list whose body may produce a non-finite value.\<close>

fun for_each :: "('a \<Rightarrow> 's \<Rightarrow> 's option) \<Rightarrow> 'a list \<Rightarrow> 's \<Rightarrow> 's option" where
  "for_each body [] s = Some s"
| "for_each body (x # xs) s =
     (case body x s of None \<Rightarrow> None | Some s' \<Rightarrow> for_each body xs s')"

subsection \<open>Nodes, edges and the id-to-index resolution\<close>

record node =
  node_id :: string

record edge =
  source :: string
  target :: string
  weight :: real

text \<open>
  \<^verbatim>\<open>{node['id']: i for i, node in enumerate(nodes)}\<close>: a later node with the same
  id overwrites the index of an earlier one.
\<close>

definition id_to_idx :: "node list \<Rightarrow> (string \<rightharpoonup> nat)" where
  "id_to_idx nodes =
     fold (\<lambda>(i, nd) m. m(node_id nd \<mapsto> i)) (enumerate 0 nodes) Map.empty"

text \<open>The loop of lines 45-50: both lists grow together, in the order of the edges.\<close>

definition resolve_edge ::
  "(string \<rightharpoonup> nat) \<Rightarrow> edge \<Rightarrow> (nat \<times> nat) list \<times> real list \<Rightarrow> (nat \<times> nat) list \<times> real list"
where
  "resolve_edge m e acc =
     (case acc of (edge_pairs, edge_weights) \<Rightarrow>
        (case m (source e) of
           None \<Rightarrow> (edge_pairs, edge_weights)
         | Some source_idx \<Rightarrow>
             (case m (target e) of
                None \<Rightarrow> (edge_pairs, edge_weights)
              | Some target_idx \<Rightarrow>
                  (edge_pairs @ [(source_idx, target_idx)], edge_weights @ [weight e]))))"

definition resolve_edges ::
  "(string \<rightharpoonup> nat) \<Rightarrow> edge list \<Rightarrow> (nat \<times> nat) list \<times> real list"
where
  "resolve_edges m edges = fold (resolve_edge m) edges ([], [])"

text \<open>
  Lines 53-54: \<^verbatim>\<open>max(edge_weights) if edge_weights else 1\<close>, then one quotient
  per retained edge. The division is Python's: with a zero \<^verbatim>\<open>max_weight\<close> the
  first quotient raises. With no retained edge the comprehension divides nothing.
\<close>

definition max_weight_of :: "real list \<Rightarrow> real" where
  "max_weight_of edge_weights = (case edge_weights of [] \<Rightarrow> 1 | w # ws \<Rightarrow> fold max ws w)"

definition normalize_weights :: "real list \<Rightarrow> error + real list" where
  "normalize_weights edge_weights =
     (let max_weight = max_weight_of edge_weights
      in if edge_weights \<noteq> [] \<and> max_weight = 0 then Inl ZeroDivisionError
         else Inr (map (\<lambda>w. w / max_weight) edge_weights))"

subsection \<open>One iteration step\<close>

text \<open>Lines 71-79: the body of the repulsion loop for the pair \<open>(i, j)\<close>.\<close>

definition repulse ::
  "real \<Rightarrow> vec3 list \<Rightarrow> nat \<Rightarrow> nat \<Rightarrow> vec3 list \<Rightarrow> vec3 list option"
where
  "repulse k positions i j displacements =
     (let delta = positions ! i - positions ! j;
          distance = norm3 delta
      in if distance > 0 then
           do {
             force \<leftarrow> np_divide (k * k) distance;
             direction \<leftarrow> vdivide delta distance;
             let d1 = displacements[i := displacements ! i + smul direction force];
             Some (d1[j := d1 ! j - smul direction force])
           }
         else Some displacements)"

text \<open>Lines 69-70: \<open>i\<close> over \<open>range(n)\<close>, \<open>j\<close> over \<open>range(i + 1, n)\<close>.\<close>

definition repulsion :: "real \<Rightarrow> nat \<Rightarrow> vec3 list \<Rightarrow> vec3 list \<Rightarrow> vec3 list option" where
  "repulsion k n positions displacements =
     for_each (\<lambda>i. for_each (\<lambda>j. repulse k positions i j) [Suc i..<n]) [0..<n] displacements"

text \<open>Lines 83-92: the body of the attraction loop for one retained edge.\<close>

definition attract ::
  "real \<Rightarrow> vec3 list \<Rightarrow> (nat \<times> nat) \<times> real \<Rightarrow> vec3 list \<Rightarrow> vec3 list option"
where
  "attract k positions e displacements =
     (case e of ((i, j), w) \<Rightarrow>
        (let delta = positions ! j - positions ! i;
             distance = norm3 delta
         in if distance > 0 then
              do {
                q \<leftarrow> np_divide (distance * distance) k;
                let force = q * (0.5 + 0.5 * w);
                direction \<leftarrow> vdivide delta distance;
                let d1 = displacements[i := displacements ! i + smul direction force];
                Some (d1[j := d1 ! j - smul direction force])
              }
            else Some displacements))"

definition attraction ::
  "real \<Rightarrow> vec3 list \<Rightarrow> (nat \<times> nat) list \<Rightarrow> real list \<Rightarrow> vec3 list \<Rightarrow> vec3 list option"
where
  "attraction k positions edge_pairs edge_weights displacements =
     for_each (attract k positions) (zip edge_pairs edge_weights) displacements"

text \<open>Lines 67-92: the displacement array of one step, from \<^verbatim>\<open>np.zeros((n, 3))\<close>.\<close>

definition accumulate_displacements ::
  "real \<Rightarrow> nat \<Rightarrow> vec3 list \<Rightarrow> (nat \<times> nat) list \<Rightarrow> real list \<Rightarrow> vec3 list option"
where
  "accumulate_displacements k n positions edge_pairs edge_weights =
     do {
       d \<leftarrow> repulsion k n positions (replicate n 0);
       attraction k positions edge_pairs edge_weights d
     }"

text \<open>Lines 96-99: the body of the loop that applies the displacements.\<close>

definition move :: "real \<Rightarrow> vec3 list \<Rightarrow> nat \<Rightarrow> vec3 list \<Rightarrow> vec3 list option" where
  "move temperature displacements i positions =
     (let displacement_length = norm3 (displacements ! i)
      in if displacement_length > 0 then
           do {
             unit \<leftarrow> vdivide (displacements ! i) displacement_length;
             Some (positions[i := positions ! i + smul unit (min displacement_length temperature)])
           }
         else Some positions)"

definition apply_displacements ::
  "real \<Rightarrow> vec3 list \<Rightarrow> nat \<Rightarrow> vec3 list \<Rightarrow> vec3 list option"
where
  "apply_displacements temperature displacements n positions =
     for_each (move temperature displacements) [0..<n] positions"

text \<open>
  Lines 66-102: the state of the loop is the position array and the temperature. The
  progress report (lines 105-107) only prints.
\<close>

definition iteration_step ::
  "real \<Rightarrow> nat \<Rightarrow> (nat \<times> nat) list \<Rightarrow> real list \<Rightarrow> vec3 list \<times> real \<Rightarrow> (vec3 list \<times> real) option"
where
  "iteration_step k n edge_pairs edge_weights st =
     (case st of (positions, temperature) \<Rightarrow>
        do {
          displacements \<leftarrow> accumulate_displacements k n positions edge_pairs edge_weights;
          positions' \<leftarrow> apply_displacements temperature displacements n positions;
          Some (positions', temperature * 0.98)
        })"

text \<open>\<^verbatim>\<open>for iteration in range(iterations)\<close>: the body runs \<open>t\<close> times.\<close>

primrec simulate :: "('s \<Rightarrow> 's option) \<Rightarrow> nat \<Rightarrow> 's \<Rightarrow> 's option" where
  "simulate step 0 s = Some s"
| "simulate step (Suc t) s =
     (case step s of None \<Rightarrow> None | Some s' \<Rightarrow> simulate step t s')"

subsection \<open>The layout and its normalization\<close>

text \<open>
  \<^verbatim>\<open>force_directed_3d\<close>. The random source is a parameter: \<open>randn i\<close> is row \<open>i\<close>
  of \<^verbatim>\<open>np.random.randn(n, 3)\<close>. \<^verbatim>\<open>area / n\<close> (line 58) divides a Python float
  by a Python int, so it raises when \<open>n = 0\<close>. A negative \<^verbatim>\<open>iterations\<close> gives an
  empty range.
\<close>

definition initial_positions :: "nat \<Rightarrow> (nat \<Rightarrow> vec3) \<Rightarrow> vec3 list" where
  "initial_positions n randn = map (\<lambda>i. smul (randn i) 5) [0..<n]"

definition force_directed_3d ::
  "node list \<Rightarrow> edge list \<Rightarrow> int \<Rightarrow> (nat \<Rightarrow> vec3) \<Rightarrow> error + vec3 list"
where
  "force_directed_3d nodes edges iterations randn =
     (let n = length nodes;
          positions = initial_positions n randn
      in case resolve_edges (id_to_idx nodes) edges of (edge_pairs, raw_weights) \<Rightarrow>
         (case normalize_weights raw_weights of
            Inl e \<Rightarrow> Inl e
          | Inr edge_weights \<Rightarrow>
              if n = 0 then Inl ZeroDivisionError
              else
                (let area = 100;
                     k = sqrt (area / real n);
                     temperature = 10
                 in case simulate (iteration_step k n edge_pairs edge_weights)
                           (nat iterations) (positions, temperature) of
                      None \<Rightarrow> Inl NonFinite
                    | Some (positions', temperature') \<Rightarrow> Inr positions')))"

text \<open>
  \<^verbatim>\<open>normalize_positions\<close>. \<^verbatim>\<open>np.max\<close> of an array without entries raises.
\<close>

definition coords :: "vec3 list \<Rightarrow> real list" where
  "coords positions = concat (map (\<lambda>p. [vx p, vy p, vz p]) positions)"

fun np_max :: "real list \<Rightarrow> error + real" where
  "np_max [] = Inl ValueError"
| "np_max (c # cs) = Inr (fold max cs c)"

definition normalize_positions :: "vec3 list \<Rightarrow> real \<Rightarrow> error + vec3 list" where
  "normalize_positions positions target_range =
     (case np_max (map abs (coords positions)) of
        Inl e \<Rightarrow> Inl e
      | Inr max_coord \<Rightarrow>
          if max_coord > 0 then
            (case np_divide target_range max_coord of
               None \<Rightarrow> Inl NonFinite
             | Some scale_factor \<Rightarrow> Inr (map (\<lambda>p. smul p scale_factor) positions))
          else Inr positions)"

text \<open>
  Steps 2 and 3 of \<^verbatim>\<open>main\<close>: the layout with 500 iterations, then the normalization
  to the range 15.
\<close>

definition main_positions :: "node list \<Rightarrow> edge list \<Rightarrow> (nat \<Rightarrow> vec3) \<Rightarrow> error + vec3 list" where
  "main_positions nodes edges randn =
     (case force_directed_3d nodes edges 500 randn of
        Inl e \<Rightarrow> Inl e
      | Inr positions \<Rightarrow> normalize_positions positions 15)"

subsection \<open>The forces as the specification words them\<close>

text \<open>
  The unordered pairs of distinct nodes, each once, smaller index first.
\<close>

definition all_pairs :: "nat \<Rightarrow> (nat \<times> nat) list" where
  "all_pairs n = concat (map (\<lambda>i. map (Pair i) [Suc i..<n]) [0..<n])"

text \<open>
  The repulsive force on node \<open>i\<close> from node \<open>j\<close>: magnitude \<open>k\<^sup>2 / distance\<close> along
  \<open>(position[i] - position[j]) / distance\<close>, and nothing at distance zero.
\<close>

definition repulsive_force :: "real \<Rightarrow> vec3 \<Rightarrow> vec3 \<Rightarrow> vec3" where
  "repulsive_force k p_i p_j =
     (let delta = p_i - p_j; distance = norm3 delta
      in if distance > 0 then smul (smul delta (1 / distance)) (k\<^sup>2 / distance) else 0)"

text \<open>
  The attractive force on node \<open>i\<close> of an edge \<open>(i, j)\<close>: magnitude
  \<open>(distance\<^sup>2 / k) * (0.5 + 0.5 * normalized_weight)\<close> from \<open>i\<close> toward \<open>j\<close>, and
  nothing at distance zero.
\<close>

definition attractive_force :: "real \<Rightarrow> vec3 \<Rightarrow> vec3 \<Rightarrow> real \<Rightarrow> vec3" where
  "attractive_force k p_i p_j normalized_weight =
     (let delta = p_j - p_i; distance = norm3 delta
      in if distance > 0
         then smul (smul delta (1 / distance))
                ((distance\<^sup>2 / k) * (0.5 + 0.5 * normalized_weight))
         else 0)"

text \<open>
  What a force on the pair \<open>(i, j)\<close> gives to node \<open>v\<close>: the force if \<open>v\<close> is \<open>i\<close>,
  its opposite if \<open>v\<close> is \<open>j\<close>.
\<close>

definition contribution :: "nat \<Rightarrow> nat \<Rightarrow> vec3 \<Rightarrow> nat \<Rightarrow> vec3" where
  "contribution i j force v = (if v = i then force else 0) - (if v = j then force else 0)"

definition specified_displacement ::
  "real \<Rightarrow> nat \<Rightarrow> vec3 list \<Rightarrow> ((nat \<times> nat) \<times> real) list \<Rightarrow> nat \<Rightarrow> vec3"
where
  "specified_displacement k n positions edges v =
     sum_list (map (\<lambda>(i, j).
                  contribution i j (repulsive_force k (positions ! i) (positions ! j)) v)
                 (all_pairs n))
   + sum_list (map (\<lambda>((i, j), w).
                  contribution i j (attractive_force k (positions ! i) (positions ! j) w) v)
                 edges)"

text \<open>The dot product, to speak of angles.\<close>

definition dot :: "vec3 \<Rightarrow> vec3 \<Rightarrow> real" where
  "dot a b = vx a * vx b + vy a * vy b + vz a * vz b"

subsection \<open>Closed forms used in the proofs\<close>

text \<open>\<^verbatim>\<open>d[i] += F; d[j] -= F\<close>, the two updates in this order.\<close>

definition add_sub :: "nat \<Rightarrow> nat \<Rightarrow> vec3 \<Rightarrow> vec3 list \<Rightarrow> vec3 list" where
  "add_sub i j F d = (d[i := d ! i + F])[j := (d[i := d ! i + F]) ! j - F]"

definition displacement_field ::
  "real \<Rightarrow> nat \<Rightarrow> vec3 list \<Rightarrow> (nat \<times> nat) list \<Rightarrow> real list \<Rightarrow> vec3 list"
where
  "displacement_field k n positions edge_pairs edge_weights =
     fold (\<lambda>((i, j), w). add_sub i j (attractive_force k (positions ! i) (positions ! j) w))
       (zip edge_pairs edge_weights)
       (fold (\<lambda>(i, j). add_sub i j (repulsive_force k (positions ! i) (positions ! j)))
          (all_pairs n) (replicate n 0))"

definition moved :: "real \<Rightarrow> vec3 list \<Rightarrow> vec3 list \<Rightarrow> nat \<Rightarrow> vec3" where
  "moved temperature displacements positions i =
     (let len = norm3 (displacements ! i)
      in if len > 0
         then positions ! i + smul (smul (displacements ! i) (1 / len)) (min len temperature)
         else positions ! i)"

subsection \<open>Inputs for the examples\<close>

definition node_A :: node where
  "node_A = \<lparr>node_id = ''A''\<rparr>"

definition node_B :: node where
  "node_B = \<lparr>node_id = ''B''\<rparr>"

definition edge_AB :: edge where
  "edge_AB = \<lparr>source = ''A'', target = ''B'', weight = 2\<rparr>"

definition edge_ghost :: edge where
  "edge_ghost = \<lparr>source = ''A'', target = ''ghost'', weight = 5\<rparr>"

definition edge_BB :: edge where
  "edge_BB = \<lparr>source = ''B'', target = ''B'', weight = 4\<rparr>"

definition edge_BA :: edge where
  "edge_BA = \<lparr>source = ''B'', target = ''A'', weight = 6\<rparr>"

definition example_randn :: "nat \<Rightarrow> vec3" where
  "example_randn i = Vec3 (1 + real i) 0 0"

definition example_positions :: "vec3 list" where
  "example_positions = [Vec3 0 0 0, Vec3 3 4 0]"

section \<open>Properties\<close>

subsection \<open>Loops, id resolution and weights\<close>

lemma for_each_Some:
  assumes "\<And>x s. x \<in> set xs \<Longrightarrow> body x s = Some (g x s)"
  shows "for_each body xs s = Some (fold g xs s)"
  using assms by (induction xs arbitrary: s) simp_all

lemma max_weight_of_Max: "ws \<noteq> [] \<Longrightarrow> max_weight_of ws = Max (set ws)"
  by (cases ws) (simp_all add: max_weight_of_def Max.set_eq_fold[symmetric] del: set_simps)

lemma resolve_edges_fold:
  "fold (resolve_edge m) edges (ps, ws) =
     (ps @ map (\<lambda>e. (the (m (source e)), the (m (target e))))
             (filter (\<lambda>e. source e \<in> dom m \<and> target e \<in> dom m) edges),
      ws @ map weight (filter (\<lambda>e. source e \<in> dom m \<and> target e \<in> dom m) edges))"
  by (induction edges arbitrary: ps ws) (auto simp: resolve_edge_def split: option.splits)

lemma id_to_idx_fold_dom:
  "dom (fold (\<lambda>(i, nd) m. m(node_id nd \<mapsto> i)) (enumerate k nodes) m0) = dom m0 \<union> node_id ` set nodes"
  by (induction nodes arbitrary: k m0) auto

lemma dom_id_to_idx: "dom (id_to_idx nodes) = node_id ` set nodes"
  by (simp add: id_to_idx_def id_to_idx_fold_dom)

lemma id_to_idx_fold_ran:
  "fold (\<lambda>(i, nd) m. m(node_id nd \<mapsto> i)) (enumerate k nodes) m0 x = Some i \<Longrightarrow>
     m0 x = Some i \<or> (k \<le> i \<and> i < k + length nodes)"
  by (induction nodes arbitrary: k m0) (fastforce split: if_splits)+

lemma id_to_idx_lt: "id_to_idx nodes x = Some i \<Longrightarrow> i < length nodes"
  using id_to_idx_fold_ran[of 0 nodes Map.empty x i] by (simp add: id_to_idx_def)

text \<open>
  Claim C7. When every input edge has a positive weight, the weights of the retained edges
  normalise without error: each is divided by the maximum over the retained edges, which is
  1 when none is retained and positive in any case; every normalized weight lies in
  \<open>[0, 1]\<close>, and when the retained weights are all equal every normalized weight is 1.
\<close>
theorem normalized_weights_in_unit_interval:
  assumes "\<forall>e \<in> set edges. 0 < weight e"
    and "resolve_edges (id_to_idx nodes) edges = (edge_pairs, raw_weights)"
  shows "normalize_weights raw_weights = Inr (map (\<lambda>w. w / max_weight_of raw_weights) raw_weights)
      \<and> 0 < max_weight_of raw_weights
      \<and> (raw_weights \<noteq> [] \<longrightarrow> max_weight_of raw_weights = Max (set raw_weights))
      \<and> (raw_weights = [] \<longrightarrow> max_weight_of raw_weights = 1)
      \<and> (\<forall>w \<in> set raw_weights. 0 \<le> w / max_weight_of raw_weights \<and> w / max_weight_of raw_weights \<le> 1)
      \<and> ((\<forall>w \<in> set raw_weights. \<forall>w' \<in> set raw_weights. w = w') \<longrightarrow>
           (\<forall>w \<in> set raw_weights. w / max_weight_of raw_weights = 1))"
proof -
  have rw: "raw_weights = map weight (filter (\<lambda>e. source e \<in> dom (id_to_idx nodes) \<and> target e \<in> dom (id_to_idx nodes)) edges)"
    using assms(2) by (simp add: resolve_edges_def resolve_edges_fold)
  have pos: "\<forall>w \<in> set raw_weights. 0 < w" using assms(1) by (auto simp: rw)
  have mpos: "0 < max_weight_of raw_weights"
  proof (cases "raw_weights = []")
    case True then show ?thesis by (simp add: max_weight_of_def)
  next
    case False
    then have "Max (set raw_weights) \<in> set raw_weights" by (intro Max_in) simp_all
    then show ?thesis using pos False by (simp add: max_weight_of_Max)
  qed
  have le: "\<forall>w \<in> set raw_weights. w \<le> max_weight_of raw_weights"
  proof
    fix w assume w: "w \<in> set raw_weights"
    then have "raw_weights \<noteq> []" by auto
    then show "w \<le> max_weight_of raw_weights" using w by (simp add: max_weight_of_Max)
  qed
  have eq: "(\<forall>w \<in> set raw_weights. \<forall>w' \<in> set raw_weights. w = w') \<longrightarrow>
           (\<forall>w \<in> set raw_weights. w / max_weight_of raw_weights = 1)"
  proof (intro impI ballI)
    fix w assume a: "\<forall>w \<in> set raw_weights. \<forall>w' \<in> set raw_weights. w = w'" and w: "w \<in> set raw_weights"
    then have ne: "raw_weights \<noteq> []" by auto
    then have "Max (set raw_weights) \<in> set raw_weights" by (intro Max_in) simp_all
    then have "max_weight_of raw_weights = w" using a w ne by (simp add: max_weight_of_Max)
    then show "w / max_weight_of raw_weights = 1" using mpos by simp
  qed
  show ?thesis
    using mpos le pos eq
    by (auto simp: normalize_weights_def Let_def max_weight_of_Max max_weight_of_def[of "[]"] intro: less_imp_le)
qed

subsection \<open>The displacement array of a step\<close>

lemma length_add_sub [simp]: "length (add_sub i j F d) = length d"
  by (simp add: add_sub_def)

lemma add_sub_zero [simp]: "add_sub i j 0 d = d"
  by (simp add: add_sub_def)

lemma nth_add_sub:
  "i < length d \<Longrightarrow> j < length d \<Longrightarrow> v < length d \<Longrightarrow>
     add_sub i j F d ! v = d ! v + contribution i j F v"
  by (auto simp: add_sub_def contribution_def nth_list_update)

lemma vdivide_Some: "b \<noteq> 0 \<Longrightarrow> vdivide v b = Some (smul v (1 / b))"
  by (simp add: vdivide_def smul_def)

lemma np_divide_Some: "b \<noteq> 0 \<Longrightarrow> np_divide a b = Some (a / b)"
  by (simp add: np_divide_def)

lemma repulse_eq:
  "repulse k positions i j d = Some (add_sub i j (repulsive_force k (positions ! i) (positions ! j)) d)"
  by (simp add: repulse_def repulsive_force_def Let_def vdivide_Some np_divide_Some add_sub_def power2_eq_square)

lemma attract_eq:
  "k \<noteq> 0 \<Longrightarrow> attract k positions ((i, j), w) d =
     Some (add_sub i j (attractive_force k (positions ! i) (positions ! j) w) d)"
  by (simp add: attract_def attractive_force_def Let_def vdivide_Some np_divide_Some add_sub_def power2_eq_square)

lemma fold_nested:
  "fold (\<lambda>i. fold (h i) (js i)) is s = fold (\<lambda>(i, j). h i j) (concat (map (\<lambda>i. map (Pair i) (js i)) is)) s"
proof (induction "is" arbitrary: s)
  case Nil show ?case by simp
next
  case (Cons i "is")
  have "fold (\<lambda>(i, j). h i j) (map (Pair i) xs) t = fold (h i) xs t" for xs t
    by (induction xs arbitrary: t) simp_all
  then show ?case using Cons by simp
qed

lemma fold_add_sub:
  assumes "\<forall>(i, j) \<in> set xs. i < length d \<and> j < length d" and "v < length d"
  shows "length (fold (\<lambda>(i, j). add_sub i j (f i j)) xs d) = length d \<and>
         fold (\<lambda>(i, j). add_sub i j (f i j)) xs d ! v
           = d ! v + sum_list (map (\<lambda>(i, j). contribution i j (f i j) v) xs)"
  using assms
proof (induction xs arbitrary: d)
  case Nil show ?case by simp
next
  case (Cons x xs)
  obtain i j where x: "x = (i, j)" by (cases x)
  have ij: "i < length d" "j < length d" using Cons.prems x by auto
  have "\<forall>(i, j) \<in> set xs. i < length (add_sub i j (f i j) d) \<and> j < length (add_sub i j (f i j) d)"
    using Cons.prems by auto
  then have *: "\<forall>(a, b) \<in> set xs. a < length (add_sub i j (f i j) d) \<and> b < length (add_sub i j (f i j) d)"
    by auto
  show ?case
    using Cons.IH[of "add_sub i j (f i j) d"] * Cons.prems(2) ij
    by (simp add: x nth_add_sub add.assoc)
qed

lemma length_fold_add_sub [simp]:
  "length (fold (\<lambda>(i, j). add_sub i j (f i j)) xs d) = length d"
  by (induction xs arbitrary: d) auto

lemma length_fold_add_sub_edges [simp]:
  "length (fold (\<lambda>((i, j), w). add_sub i j (g i j w)) xs d) = length d"
  by (induction xs arbitrary: d) auto

lemma all_pairs_bound: "(i, j) \<in> set (all_pairs n) \<Longrightarrow> i < n \<and> j < n"
  by (auto simp: all_pairs_def)

lemma repulsion_eq:
  "repulsion k n positions d =
     Some (fold (\<lambda>(i, j). add_sub i j (repulsive_force k (positions ! i) (positions ! j))) (all_pairs n) d)"
proof -
  have inner: "for_each (\<lambda>j. repulse k positions i j) js s
      = Some (fold (\<lambda>j. add_sub i j (repulsive_force k (positions ! i) (positions ! j))) js s)" for i js s
    by (rule for_each_Some) (simp add: repulse_eq)
  have "repulsion k n positions d
      = Some (fold (\<lambda>i. fold (\<lambda>j. add_sub i j (repulsive_force k (positions ! i) (positions ! j))) [Suc i..<n]) [0..<n] d)"
    unfolding repulsion_def by (rule for_each_Some) (simp add: inner)
  then show ?thesis by (simp add: fold_nested all_pairs_def)
qed

lemma attraction_eq:
  assumes "k \<noteq> 0"
  shows "attraction k positions edge_pairs edge_weights d =
     Some (fold (\<lambda>((i, j), w). add_sub i j (attractive_force k (positions ! i) (positions ! j) w))
             (zip edge_pairs edge_weights) d)"
  unfolding attraction_def
  by (rule for_each_Some) (auto simp: attract_eq[OF assms])

lemma fold_add_sub_edges:
  assumes "\<forall>((i, j), w) \<in> set xs. i < length d \<and> j < length d" and "v < length d"
  shows "length (fold (\<lambda>((i, j), w). add_sub i j (f i j w)) xs d) = length d \<and>
         fold (\<lambda>((i, j), w). add_sub i j (f i j w)) xs d ! v
           = d ! v + sum_list (map (\<lambda>((i, j), w). contribution i j (f i j w) v) xs)"
  using assms
proof (induction xs arbitrary: d)
  case Nil show ?case by simp
next
  case (Cons x xs)
  obtain i j w where x: "x = ((i, j), w)" by (cases x) auto
  have ij: "i < length d" "j < length d" using Cons.prems x by auto
  have *: "\<forall>((a, b), c) \<in> set xs. a < length (add_sub i j (f i j w) d) \<and> b < length (add_sub i j (f i j w) d)"
    using Cons.prems by auto
  show ?case
    using Cons.IH[of "add_sub i j (f i j w) d"] * Cons.prems(2) ij
    by (simp add: x nth_add_sub add.assoc)
qed

text \<open>
  Claim C1. The displacement array accumulated in one step is the sum of the specified
  forces: for each node, the contributions of the repulsive forces of all unordered pairs
  of distinct nodes and of the attractive forces of all retained edges, each added to the
  first node of the pair and subtracted from the second; a pair or edge at distance zero
  contributes the zero vector. Here \<open>k\<close> is not zero (it is \<open>sqrt (area / n)\<close>) and the
  retained edges hold indices of nodes.
\<close>
theorem displacements_sum_of_forces:
  assumes "k \<noteq> 0"
    and "\<forall>((i, j), w) \<in> set (zip edge_pairs edge_weights). i < n \<and> j < n"
  shows "\<exists>displacements.
           accumulate_displacements k n positions edge_pairs edge_weights = Some displacements
         \<and> length displacements = n
         \<and> (\<forall>v < n. displacements ! v
                    = specified_displacement k n positions (zip edge_pairs edge_weights) v)"
proof -
  let ?rep = "fold (\<lambda>(i, j). add_sub i j (repulsive_force k (positions ! i) (positions ! j))) (all_pairs n) (replicate n 0)"
  let ?att = "fold (\<lambda>((i, j), w). add_sub i j (attractive_force k (positions ! i) (positions ! j) w))
             (zip edge_pairs edge_weights) ?rep"
  have acc: "accumulate_displacements k n positions edge_pairs edge_weights = Some ?att"
    by (simp add: accumulate_displacements_def repulsion_eq attraction_eq[OF assms(1)])
  have b: "\<forall>(i, j) \<in> set (all_pairs n). i < length (replicate n (0::vec3)) \<and> j < length (replicate n (0::vec3))"
    using all_pairs_bound by auto
  have lrep: "length ?rep = n" by simp
  have rep: "?rep ! v = sum_list (map (\<lambda>(i, j). contribution i j (repulsive_force k (positions ! i) (positions ! j)) v) (all_pairs n))"
    if "v < n" for v
    using fold_add_sub[OF b, of v "\<lambda>i j. repulsive_force k (positions ! i) (positions ! j)"] that by simp
  have e: "\<forall>((i, j), w) \<in> set (zip edge_pairs edge_weights). i < length ?rep \<and> j < length ?rep"
    using assms(2) lrep by simp
  have latt: "length ?att = n" by simp
  have att: "?att ! v = specified_displacement k n positions (zip edge_pairs edge_weights) v" if "v < n" for v
    using fold_add_sub_edges[OF e, of v "\<lambda>i j w. attractive_force k (positions ! i) (positions ! j) w"] that lrep rep[OF that]
    by (simp add: specified_displacement_def)
  show ?thesis using acc latt att by blast
qed

subsection \<open>Moving the nodes and cooling\<close>

lemma move_eq:
  "move T D i P = Some (if norm3 (D ! i) > 0 then P[i := moved T D P i] else P)"
  by (simp add: move_def moved_def Let_def vdivide_Some)

lemma fold_move:
  "n \<le> length P \<Longrightarrow>
   fold (\<lambda>i P. if norm3 (D ! i) > 0 then P[i := moved T D P i] else P) [0..<n] P
     = map (moved T D P) [0..<n] @ drop n P"
proof (induction n)
  case 0 show ?case by simp
next
  case (Suc n)
  let ?Q = "map (moved T D P) [0..<n] @ drop n P"
  have n: "n < length P" using Suc.prems by simp
  have dr: "drop n P = P ! n # drop (Suc n) P" using n by (simp add: Cons_nth_drop_Suc)
  have qn: "?Q ! n = P ! n" using n by (simp add: nth_append)
  have mv: "moved T D ?Q n = moved T D P n" by (simp only: moved_def qn)
  have upd: "?Q[n := x] = map (moved T D P) [0..<n] @ x # drop (Suc n) P" for x
    by (simp add: list_update_append dr)
  have same: "\<not> 0 < norm3 (D ! n) \<Longrightarrow> moved T D P n = P ! n"
    by (simp add: moved_def Let_def)
  have IH: "fold (\<lambda>i P. if norm3 (D ! i) > 0 then P[i := moved T D P i] else P) [0..<n] P = ?Q"
    using Suc.IH n by simp
  show ?case
  proof (cases "0 < norm3 (D ! n)")
    case True
    have "fold (\<lambda>i P. if norm3 (D ! i) > 0 then P[i := moved T D P i] else P) [0..<Suc n] P
        = ?Q[n := moved T D ?Q n]"
      using True by (simp add: IH)
    also have "\<dots> = map (moved T D P) [0..<n] @ moved T D P n # drop (Suc n) P"
      by (simp only: mv upd)
    finally show ?thesis by simp
  next
    case False
    have "fold (\<lambda>i P. if norm3 (D ! i) > 0 then P[i := moved T D P i] else P) [0..<Suc n] P = ?Q"
      using False by (simp add: IH)
    also have "\<dots> = map (moved T D P) [0..<n] @ moved T D P n # drop (Suc n) P"
      by (simp add: dr same[OF False])
    finally show ?thesis by simp
  qed
qed

lemma apply_displacements_eq:
  assumes "length P = n"
  shows "apply_displacements T D n P = Some (map (moved T D P) [0..<n])"
proof -
  have "apply_displacements T D n P
      = Some (fold (\<lambda>i P. if norm3 (D ! i) > 0 then P[i := moved T D P i] else P) [0..<n] P)"
    unfolding apply_displacements_def by (rule for_each_Some) (simp add: move_eq)
  then show ?thesis using fold_move[of n P D T] assms by simp
qed

lemma norm3_smul: "norm3 (smul v s) = \<bar>s\<bar> * norm3 v"
proof -
  have "vx v * s * (vx v * s) + vy v * s * (vy v * s) + vz v * s * (vz v * s)
      = s\<^sup>2 * (vx v * vx v + vy v * vy v + vz v * vz v)"
    by (simp add: power2_eq_square algebra_simps)
  then show ?thesis
    by (simp add: norm3_def smul_def real_sqrt_mult)
qed

lemma norm3_nonneg [simp]: "0 \<le> norm3 v"
  by (simp add: norm3_def)

lemma add_diff_vec3 [simp]: "(a + b) - a = (b::vec3)"
  by simp

lemma moved_distance:
  assumes "0 < norm3 (D ! i)" and "0 \<le> T"
  shows "norm3 (moved T D P i - P ! i) = min (norm3 (D ! i)) T"
proof -
  have "norm3 (moved T D P i - P ! i)
      = norm3 (smul (smul (D ! i) (1 / norm3 (D ! i))) (min (norm3 (D ! i)) T))"
    using assms(1) by (simp add: moved_def Let_def)
  also have "\<dots> = \<bar>min (norm3 (D ! i)) T\<bar> * (\<bar>1 / norm3 (D ! i)\<bar> * norm3 (D ! i))"
    by (simp only: norm3_smul)
  also have "\<dots> = min (norm3 (D ! i)) T"
    using assms by simp
  finally show ?thesis .
qed

lemma simulate_Suc_end:
  "simulate step (Suc t) s = (case simulate step t s of None \<Rightarrow> None | Some s' \<Rightarrow> step s')"
proof (induction t arbitrary: s)
  case 0
  show ?case by (cases "step s") simp_all
next
  case (Suc t)
  have "simulate step (Suc (Suc t)) s
      = (case step s of None \<Rightarrow> None | Some s' \<Rightarrow> simulate step (Suc t) s')"
    by simp
  also have "\<dots> = (case step s of None \<Rightarrow> None
                     | Some s' \<Rightarrow> (case simulate step t s' of None \<Rightarrow> None | Some x \<Rightarrow> step x))"
    by (simp only: Suc.IH)
  also have "\<dots> = (case simulate step (Suc t) s of None \<Rightarrow> None | Some x \<Rightarrow> step x)"
    by (cases "step s") simp_all
  finally show ?case .
qed

lemma accumulate_displacements_eq:
  "k \<noteq> 0 \<Longrightarrow> accumulate_displacements k n positions edge_pairs edge_weights
     = Some (displacement_field k n positions edge_pairs edge_weights)"
  by (simp add: accumulate_displacements_def repulsion_eq attraction_eq displacement_field_def)

lemma iteration_step_eq:
  assumes "k \<noteq> 0" and "length P = n"
  shows "iteration_step k n ep ew (P, T)
     = Some (map (moved T (displacement_field k n P ep ew) P) [0..<n], T * 0.98)"
  by (simp add: iteration_step_def accumulate_displacements_eq[OF assms(1)]
        apply_displacements_eq[OF assms(2)])

lemma simulate_total:
  assumes "k \<noteq> 0" and "length P = n"
  shows "\<exists>P'. simulate (iteration_step k n ep ew) t (P, T) = Some (P', T * 0.98 ^ t) \<and> length P' = n"
  using assms(2)
proof (induction t arbitrary: P T)
  case 0 then show ?case by simp
next
  case (Suc t)
  let ?P1 = "map (moved T (displacement_field k n P ep ew) P) [0..<n]"
  have "length ?P1 = n" by simp
  from Suc.IH[OF this, of "T * 0.98"] show ?case
    by (auto simp: iteration_step_eq[OF assms(1) Suc.prems] mult.assoc)
qed

text \<open>
  Claim C3. In a run from the temperature 10, the temperature after \<open>t\<close> steps is
  \<open>10 * 0.98 ^ t\<close> and positive. In the next step a node whose accumulated displacement has
  a positive length \<open>len\<close> moves by \<open>(displacement / len) * min len temperature\<close>, which is
  no farther than the temperature; a node whose displacement has length zero stays.
\<close>
theorem step_capped_by_temperature:
  assumes "k \<noteq> 0" and "length positions0 = n"
  shows "\<exists>positions displacements positions'.
           simulate (iteration_step k n edge_pairs edge_weights) t (positions0, 10)
             = Some (positions, 10 * 0.98 ^ t)
         \<and> (0::real) < 10 * 0.98 ^ t
         \<and> accumulate_displacements k n positions edge_pairs edge_weights = Some displacements
         \<and> simulate (iteration_step k n edge_pairs edge_weights) (Suc t) (positions0, 10)
             = Some (positions', 10 * 0.98 ^ t * 0.98)
         \<and> (\<forall>i < n.
               (0 < norm3 (displacements ! i) \<longrightarrow>
                  positions' ! i = positions ! i
                    + smul (smul (displacements ! i) (1 / norm3 (displacements ! i)))
                        (min (norm3 (displacements ! i)) (10 * 0.98 ^ t))
                \<and> norm3 (positions' ! i - positions ! i) \<le> 10 * 0.98 ^ t)
             \<and> (norm3 (displacements ! i) = 0 \<longrightarrow> positions' ! i = positions ! i))"
proof -
  let ?T = "(10::real) * 0.98 ^ t"
  obtain P where P: "simulate (iteration_step k n edge_pairs edge_weights) t (positions0, 10) = Some (P, ?T)"
    and lP: "length P = n"
    using simulate_total[OF assms, of edge_pairs edge_weights t 10] by blast
  let ?D = "displacement_field k n P edge_pairs edge_weights"
  let ?P' = "map (moved ?T ?D P) [0..<n]"
  have T: "0 < ?T" by simp
  have acc: "accumulate_displacements k n P edge_pairs edge_weights = Some ?D"
    by (rule accumulate_displacements_eq[OF assms(1)])
  have nxt: "simulate (iteration_step k n edge_pairs edge_weights) (Suc t) (positions0, 10) = Some (?P', ?T * 0.98)"
    by (simp only: simulate_Suc_end P option.case iteration_step_eq[OF assms(1) lP])
  have mv: "(0 < norm3 (?D ! i) \<longrightarrow>
                  ?P' ! i = P ! i + smul (smul (?D ! i) (1 / norm3 (?D ! i))) (min (norm3 (?D ! i)) ?T)
                \<and> norm3 (?P' ! i - P ! i) \<le> ?T)
             \<and> (norm3 (?D ! i) = 0 \<longrightarrow> ?P' ! i = P ! i)" if "i < n" for i
  proof (intro conjI impI)
    assume pos: "0 < norm3 (?D ! i)"
    show "?P' ! i = P ! i + smul (smul (?D ! i) (1 / norm3 (?D ! i))) (min (norm3 (?D ! i)) ?T)"
      using that pos by (simp add: moved_def Let_def)
    have "norm3 (moved ?T ?D P i - P ! i) = min (norm3 (?D ! i)) ?T"
      by (rule moved_distance[OF pos]) simp
    then show "norm3 (?P' ! i - P ! i) \<le> ?T" using that by simp
  next
    assume "norm3 (?D ! i) = 0"
    then show "?P' ! i = P ! i" using that by (simp add: moved_def Let_def)
  qed
  show ?thesis
    using P T acc nxt mv by blast
qed

subsection \<open>Whole runs\<close>

lemma length_initial_positions [simp]: "length (initial_positions n randn) = n"
  by (simp add: initial_positions_def)

lemma never_non_finite:
  "force_directed_3d nodes edges iterations randn \<noteq> Inl NonFinite"
proof -
  obtain ep rw where r: "resolve_edges (id_to_idx nodes) edges = (ep, rw)" by (cases "resolve_edges (id_to_idx nodes) edges")
  show ?thesis
  proof (cases "normalize_weights rw")
    case (Inl e)
    then have "e = ZeroDivisionError" by (auto simp: normalize_weights_def Let_def split: if_splits)
    then show ?thesis using Inl r by (simp add: force_directed_3d_def Let_def)
  next
    case (Inr ew)
    show ?thesis
    proof (cases "length nodes = 0")
      case True then show ?thesis using Inr r by (simp add: force_directed_3d_def Let_def)
    next
      case False
      then have k: "sqrt (100 / real (length nodes)) \<noteq> 0" by simp
      obtain P' where "simulate (iteration_step (sqrt (100 / real (length nodes))) (length nodes) ep ew) (nat iterations)
           (initial_positions (length nodes) randn, 10) = Some (P', 10 * 0.98 ^ nat iterations)"
        using simulate_total[OF k length_initial_positions, where ep=ep and ew=ew and t="nat iterations" and T=10] by blast
      then show ?thesis using Inr r False by (simp add: force_directed_3d_def Let_def)
    qed
  qed
qed

text \<open>
  Claim C8. No run of the layout ends with a non-finite value, for every node list, every
  edge list (duplicates and self-loops included), every iteration count and every initial
  sample: no division of the iteration steps has a zero divisor. For a graph with a node,
  every number of iterations completes with a position for each node, whatever the index
  pairs and weights of the retained edges.
\<close>
theorem no_division_by_zero:
  "force_directed_3d nodes edges iterations randn \<noteq> Inl NonFinite
   \<and> (\<exists>positions temperature.
         simulate (iteration_step (sqrt (100 / real (Suc m))) (Suc m) edge_pairs edge_weights) t
           (initial_positions (Suc m) randn, 10) = Some (positions, temperature)
       \<and> length positions = Suc m)"
proof -
  have k: "sqrt (100 / real (Suc m)) \<noteq> 0" by simp
  have "\<exists>positions temperature.
         simulate (iteration_step (sqrt (100 / real (Suc m))) (Suc m) edge_pairs edge_weights) t
           (initial_positions (Suc m) randn, 10) = Some (positions, temperature)
       \<and> length positions = Suc m"
    using simulate_total[OF k length_initial_positions, where ep=edge_pairs and ew=edge_weights and t=t and T=10]
    by blast
  then show ?thesis using never_non_finite by blast
qed

lemma resolve_edges_eq:
  "resolve_edges m edges =
     (map (\<lambda>e. (the (m (source e)), the (m (target e))))
             (filter (\<lambda>e. source e \<in> dom m \<and> target e \<in> dom m) edges),
      map weight (filter (\<lambda>e. source e \<in> dom m \<and> target e \<in> dom m) edges))"
  by (simp add: resolve_edges_def resolve_edges_fold)

lemma resolve_edges_in_range:
  assumes "resolve_edges (id_to_idx nodes) edges = (edge_pairs, raw_weights)"
  shows "\<forall>((i, j), w) \<in> set (zip edge_pairs edge_weights). i < length nodes \<and> j < length nodes"
proof -
  have lt: "the (id_to_idx nodes x) < length nodes" if "x \<in> dom (id_to_idx nodes)" for x
  proof -
    from that obtain i where i: "id_to_idx nodes x = Some i" by blast
    then have "i < length nodes" by (rule id_to_idx_lt)
    then show ?thesis by (simp add: i)
  qed
  have ep: "edge_pairs = map (\<lambda>e. (the (id_to_idx nodes (source e)), the (id_to_idx nodes (target e))))
             (filter (\<lambda>e. source e \<in> dom (id_to_idx nodes) \<and> target e \<in> dom (id_to_idx nodes)) edges)"
    using assms by (simp add: resolve_edges_eq)
  have "i < length nodes \<and> j < length nodes" if "(i, j) \<in> set edge_pairs" for i j
  proof -
    from that obtain e :: edge where "source e \<in> dom (id_to_idx nodes)" "target e \<in> dom (id_to_idx nodes)"
      and "i = the (id_to_idx nodes (source e))" "j = the (id_to_idx nodes (target e))"
      unfolding ep by auto
    then show ?thesis using lt by blast
  qed
  then show ?thesis by (auto dest: set_zip_leftD)
qed

text \<open>
  Claim C5. With no node, the layout does not return an empty array: \<^verbatim>\<open>area / n\<close>
  raises \<^verbatim>\<open>ZeroDivisionError\<close>, whatever the edges and the iteration count.
\<close>
theorem empty_graph_raises: "force_directed_3d [] edges iterations randn = Inl ZeroDivisionError"
  by (simp add: force_directed_3d_def resolve_edges_eq dom_id_to_idx normalize_weights_def max_weight_of_def)

text \<open>
  Claim C9, as amended. A non-positive iteration count is accepted: for a non-empty node
  list whose retained weights normalise, the loop body never runs and the initial positions
  are returned.
\<close>
theorem nonpositive_iterations_return_initial:
  assumes "iterations \<le> 0" and "nodes \<noteq> []"
    and "normalize_weights (snd (resolve_edges (id_to_idx nodes) edges)) = Inr edge_weights"
  shows "force_directed_3d nodes edges iterations randn = Inr (initial_positions (length nodes) randn)"
proof -
  obtain ep rw where r: "resolve_edges (id_to_idx nodes) edges = (ep, rw)"
    by (cases "resolve_edges (id_to_idx nodes) edges")
  have z: "nat iterations = 0" using assms(1) by simp
  show ?thesis using assms(2,3) r by (simp add: force_directed_3d_def Let_def z)
qed

text \<open>
  Claim C6. The id resolution retains exactly the edges whose source and target are both
  ids of nodes, in their order, as index pairs with their weights, and it has no error. The
  layout of a graph is the layout of the graph with only these edges, for every iteration
  count and initial sample.
\<close>
theorem unresolved_edges_dropped:
  "resolve_edges (id_to_idx nodes) edges =
     (map (\<lambda>e. (the (id_to_idx nodes (source e)), the (id_to_idx nodes (target e))))
        (filter (\<lambda>e. source e \<in> set (map node_id nodes) \<and> target e \<in> set (map node_id nodes)) edges),
      map weight
        (filter (\<lambda>e. source e \<in> set (map node_id nodes) \<and> target e \<in> set (map node_id nodes)) edges))
   \<and> force_directed_3d nodes edges iterations randn =
     force_directed_3d nodes
        (filter (\<lambda>e. source e \<in> set (map node_id nodes) \<and> target e \<in> set (map node_id nodes)) edges)
        iterations randn"
  by (simp add: force_directed_3d_def resolve_edges_eq dom_id_to_idx)

lemma for_each_append:
  "for_each body (xs @ ys) s = (case for_each body xs s of None \<Rightarrow> None | Some s' \<Rightarrow> for_each body ys s')"
  by (induction xs arbitrary: s) (simp_all split: option.splits)

lemma norm3_zero [simp]: "norm3 0 = 0"
  by (simp add: norm3_def zero_vec3_def)

lemma attract_self: "attract k positions ((i, i), w) d = Some d"
  by (simp add: attract_def)

lemma attraction_self_loop:
  assumes "length ps1 = length ws1"
  shows "attraction k positions (ps1 @ (i, i) # ps2) (ws1 @ w # ws2) d
       = attraction k positions (ps1 @ ps2) (ws1 @ ws2) d"
  using assms by (simp add: attraction_def for_each_append attract_self split: option.splits)

lemma iteration_step_self_loop:
  assumes "length ps1 = length ws1"
  shows "iteration_step k n (ps1 @ (i, i) # ps2) (ws1 @ w # ws2)
       = iteration_step k n (ps1 @ ps2) (ws1 @ ws2)"
  by (rule ext)
    (simp add: iteration_step_def accumulate_displacements_def attraction_self_loop[OF assms])

lemma resolve_edges_append:
  "resolve_edges m (es1 @ es2)
     = (fst (resolve_edges m es1) @ fst (resolve_edges m es2),
        snd (resolve_edges m es1) @ snd (resolve_edges m es2))"
  by (simp add: resolve_edges_eq)

lemma resolve_edges_self_loop:
  assumes "m (source e) = Some i" and "m (target e) = Some i"
  shows "resolve_edges m (es1 @ e # es2)
       = (fst (resolve_edges m es1) @ (i, i) # fst (resolve_edges m es2),
          snd (resolve_edges m es1) @ weight e # snd (resolve_edges m es2))"
  using assms by (auto simp: resolve_edges_eq)

lemma length_resolve_edges:
  "length (fst (resolve_edges m es)) = length (snd (resolve_edges m es))"
  by (simp add: resolve_edges_eq)

lemma layout_self_loop:
  assumes "id_to_idx nodes (source e) = Some i" and "id_to_idx nodes (target e) = Some i"
    and "max_weight_of (snd (resolve_edges (id_to_idx nodes) (es1 @ e # es2)))
       = max_weight_of (snd (resolve_edges (id_to_idx nodes) (es1 @ es2)))"
  shows "force_directed_3d nodes (es1 @ e # es2) iterations randn
       = force_directed_3d nodes (es1 @ es2) iterations randn"
proof -
  let ?m = "id_to_idx nodes"
  let ?p1 = "fst (resolve_edges ?m es1)" and ?w1 = "snd (resolve_edges ?m es1)"
  let ?p2 = "fst (resolve_edges ?m es2)" and ?w2 = "snd (resolve_edges ?m es2)"
  note r = resolve_edges_self_loop[OF assms(1,2), of es1 es2] resolve_edges_append[of ?m es1 es2]
  let ?M = "max_weight_of (?w1 @ ?w2)"
  have M: "max_weight_of (?w1 @ weight e # ?w2) = ?M" using assms(3) by (simp only: r snd_conv)
  have len: "length ?p1 = length (map (\<lambda>w. w / ?M) ?w1)" by (simp add: length_resolve_edges)
  show ?thesis
  proof (cases "?M = 0")
    case True
    then have "?w1 @ ?w2 \<noteq> []" by (auto simp: max_weight_of_def)
    then have "normalize_weights (?w1 @ ?w2) = Inl ZeroDivisionError"
      and "normalize_weights (?w1 @ weight e # ?w2) = Inl ZeroDivisionError"
      using True M by (simp_all add: normalize_weights_def Let_def)
    then show ?thesis by (simp add: force_directed_3d_def r)
  next
    case False
    have n1: "normalize_weights (?w1 @ ?w2) = Inr (map (\<lambda>w. w / ?M) ?w1 @ map (\<lambda>w. w / ?M) ?w2)"
      using False by (simp add: normalize_weights_def Let_def)
    have n2: "normalize_weights (?w1 @ weight e # ?w2)
        = Inr (map (\<lambda>w. w / ?M) ?w1 @ (weight e / ?M) # map (\<lambda>w. w / ?M) ?w2)"
      using False M by (simp add: normalize_weights_def Let_def)
    have "iteration_step k n (?p1 @ (i, i) # ?p2)
              (map (\<lambda>w. w / ?M) ?w1 @ (weight e / ?M) # map (\<lambda>w. w / ?M) ?w2)
        = iteration_step k n (?p1 @ ?p2)
              (map (\<lambda>w. w / ?M) ?w1 @ map (\<lambda>w. w / ?M) ?w2)" for k n
      by (rule iteration_step_self_loop[OF len])
    then show ?thesis by (simp add: force_directed_3d_def r n1 n2 Let_def)
  qed
qed

text \<open>
  Claim C10, as amended. An edge whose source and target resolve to the same index \<open>i\<close> is
  retained as the pair \<open>(i, i)\<close> with its weight, so it takes part in the weight
  normalization. In the attraction loop it takes the zero-distance branch and leaves the
  displacement array as it is, so the loop with this entry equals the loop without it.
  When the self-loop leaves \<^verbatim>\<open>max_weight\<close> as it is without it, the layout with the
  self-loop is the layout without it, for every iteration count and initial sample.
\<close>
theorem self_loop_no_force:
  assumes "id_to_idx nodes (source e) = Some i" and "id_to_idx nodes (target e) = Some i"
  shows "resolve_edge (id_to_idx nodes) e (edge_pairs, raw_weights)
           = (edge_pairs @ [(i, i)], raw_weights @ [weight e])
       \<and> attract k positions ((i, i), w) displacements = Some displacements
       \<and> (length ps1 = length ws1 \<longrightarrow>
            attraction k positions (ps1 @ (i, i) # ps2) (ws1 @ w # ws2) displacements
              = attraction k positions (ps1 @ ps2) (ws1 @ ws2) displacements)
       \<and> (max_weight_of (snd (resolve_edges (id_to_idx nodes) (es1 @ e # es2)))
            = max_weight_of (snd (resolve_edges (id_to_idx nodes) (es1 @ es2))) \<longrightarrow>
            force_directed_3d nodes (es1 @ e # es2) iterations randn
              = force_directed_3d nodes (es1 @ es2) iterations randn)"
proof -
  have "resolve_edge (id_to_idx nodes) e (edge_pairs, raw_weights)
           = (edge_pairs @ [(i, i)], raw_weights @ [weight e])"
    using assms by (simp add: resolve_edge_def)
  moreover have "attract k positions ((i, i), w) displacements = Some displacements"
    by (rule attract_self)
  moreover have "length ps1 = length ws1 \<longrightarrow>
            attraction k positions (ps1 @ (i, i) # ps2) (ws1 @ w # ws2) displacements
              = attraction k positions (ps1 @ ps2) (ws1 @ ws2) displacements"
    using attraction_self_loop by blast
  moreover have "max_weight_of (snd (resolve_edges (id_to_idx nodes) (es1 @ e # es2)))
            = max_weight_of (snd (resolve_edges (id_to_idx nodes) (es1 @ es2))) \<longrightarrow>
            force_directed_3d nodes (es1 @ e # es2) iterations randn
              = force_directed_3d nodes (es1 @ es2) iterations randn"
    using layout_self_loop[OF assms] by blast
  ultimately show ?thesis by blast
qed

subsection \<open>Normalization\<close>

lemma np_max_Inr: "np_max xs = Inr m \<Longrightarrow> xs \<noteq> [] \<and> m = Max (set xs)"
  by (cases xs) (auto simp: Max.set_eq_fold[symmetric] simp del: set_simps)

lemma coords_smul: "coords (map (\<lambda>p. smul p s) positions) = map (\<lambda>c. c * s) (coords positions)"
  by (induction positions) (simp_all add: coords_def smul_def)

lemma smul_diff: "smul a s - smul b s = smul (a - b) s"
  by (simp add: smul_def minus_vec3_def algebra_simps)

lemma dot_smul: "dot (smul a s) (smul b s) = s\<^sup>2 * dot a b"
  by (simp add: dot_def smul_def power2_eq_square algebra_simps)

lemma smul_one [simp]: "smul p 1 = p"
  by (simp add: smul_def)

lemma normalize_positions_pos:
  assumes "np_max (map abs (coords positions)) = Inr max_coord" and "0 < max_coord"
  shows "normalize_positions positions R = Inr (map (\<lambda>p. smul p (R / max_coord)) positions)"
  using assms by (simp add: normalize_positions_def np_divide_def)

lemma normalize_positions_zero:
  assumes "np_max (map abs (coords positions)) = Inr max_coord" and "\<not> 0 < max_coord"
  shows "normalize_positions positions R = Inr positions"
  using assms by (simp add: normalize_positions_def)

lemma scaled_bounds:
  assumes "np_max (map abs (coords positions)) = Inr max_coord" and "0 < max_coord" and "0 \<le> R"
    and "c \<in> set (coords (map (\<lambda>p. smul p (R / max_coord)) positions))"
  shows "- R \<le> c \<and> c \<le> R"
proof -
  obtain c0 where c0: "c0 \<in> set (coords positions)" and c: "c = c0 * (R / max_coord)"
    using assms(4) by (auto simp: coords_smul)
  have "max_coord = Max (set (map abs (coords positions)))" using np_max_Inr[OF assms(1)] by simp
  moreover have "\<bar>c0\<bar> \<in> set (map abs (coords positions))" using c0 by simp
  ultimately have le: "\<bar>c0\<bar> \<le> max_coord" by (metis List.finite_set Max_ge)
  have "\<bar>c\<bar> = \<bar>c0\<bar> * R / max_coord" using assms(2,3) by (simp add: c abs_mult)
  also have "\<dots> \<le> max_coord * R / max_coord"
    using le assms(2,3) by (intro divide_right_mono mult_right_mono) simp_all
  also have "\<dots> = R" using assms(2) by simp
  finally show ?thesis by (simp add: abs_le_iff)
qed

lemma scaled_attains:
  assumes "np_max (map abs (coords positions)) = Inr max_coord" and "0 < max_coord"
  shows "\<exists>c \<in> set (coords (map (\<lambda>p. smul p (R / max_coord)) positions)). c = R \<or> c = - R"
proof -
  have ne: "map abs (coords positions) \<noteq> []" and m: "max_coord = Max (set (map abs (coords positions)))"
    using np_max_Inr[OF assms(1)] by simp_all
  have "Max (set (map abs (coords positions))) \<in> set (map abs (coords positions))"
    using ne by (intro Max_in) simp_all
  then obtain c0 where c0: "c0 \<in> set (coords positions)" and a: "\<bar>c0\<bar> = max_coord"
    using m by auto
  have "c0 * (R / max_coord) \<in> set (coords (map (\<lambda>p. smul p (R / max_coord)) positions))"
    using c0 by (auto simp: coords_smul)
  moreover have "c0 * (R / max_coord) = R \<or> c0 * (R / max_coord) = - R"
    using a assms(2) by (cases "0 \<le> c0") auto
  ultimately show ?thesis by blast
qed

lemma max_coord_nonneg:
  assumes "np_max (map abs (coords positions)) = Inr max_coord"
  shows "0 \<le> max_coord"
proof -
  have ne: "map abs (coords positions) \<noteq> []" and m: "max_coord = Max (set (map abs (coords positions)))"
    using np_max_Inr[OF assms(1)] by simp_all
  have "Max (set (map abs (coords positions))) \<in> set (map abs (coords positions))"
    using ne by (intro Max_in) simp_all
  then show ?thesis using m by auto
qed

lemma uniform_scaling:
  assumes "normalized = map (\<lambda>p. smul p s) positions"
    and "i < length positions" "j < length positions" "k < length positions" "l < length positions"
  shows "norm3 (normalized ! i - normalized ! j) * norm3 (positions ! k - positions ! l)
           = norm3 (normalized ! k - normalized ! l) * norm3 (positions ! i - positions ! j)"
    and "dot (normalized ! i - normalized ! j) (normalized ! k - normalized ! l)
             * (norm3 (positions ! i - positions ! j) * norm3 (positions ! k - positions ! l))
           = dot (positions ! i - positions ! j) (positions ! k - positions ! l)
             * (norm3 (normalized ! i - normalized ! j) * norm3 (normalized ! k - normalized ! l))"
  using assms by (simp_all add: smul_diff norm3_smul dot_smul power2_eq_square)

text \<open>
  Claim C2. For a position array with an entry, with the maximum absolute coordinate
  \<open>max_coord\<close>: when it is positive, every row is multiplied by \<open>R / max_coord\<close>; then for
  a half-range \<open>R \<ge> 0\<close> every coordinate lies in \<open>[-R, R]\<close>, and some coordinate is \<open>R\<close> or
  \<open>-R\<close>. When it is zero the positions are returned unchanged. In both cases the result is
  the array scaled by one factor, so ratios of distances and cosines of angles between
  difference vectors are the same (stated without division).
\<close>
theorem normalize_positions_uniform_scaling:
  assumes "np_max (map abs (coords positions)) = Inr max_coord"
  shows "(0 < max_coord \<longrightarrow>
            normalize_positions positions R = Inr (map (\<lambda>p. smul p (R / max_coord)) positions)
          \<and> (0 \<le> R \<longrightarrow> (\<forall>c \<in> set (coords (map (\<lambda>p. smul p (R / max_coord)) positions)). - R \<le> c \<and> c \<le> R))
          \<and> (\<exists>c \<in> set (coords (map (\<lambda>p. smul p (R / max_coord)) positions)). c = R \<or> c = - R))
       \<and> (max_coord = 0 \<longrightarrow> normalize_positions positions R = Inr positions)
       \<and> (0 < max_coord \<or> max_coord = 0)
       \<and> (\<exists>s normalized.
            normalize_positions positions R = Inr normalized
          \<and> normalized = map (\<lambda>p. smul p s) positions
          \<and> (\<forall>i < length positions. \<forall>j < length positions.
              \<forall>k < length positions. \<forall>l < length positions.
                norm3 (normalized ! i - normalized ! j) * norm3 (positions ! k - positions ! l)
                  = norm3 (normalized ! k - normalized ! l) * norm3 (positions ! i - positions ! j)
              \<and> dot (normalized ! i - normalized ! j) (normalized ! k - normalized ! l)
                    * (norm3 (positions ! i - positions ! j) * norm3 (positions ! k - positions ! l))
                  = dot (positions ! i - positions ! j) (positions ! k - positions ! l)
                    * (norm3 (normalized ! i - normalized ! j) * norm3 (normalized ! k - normalized ! l))))"
proof -
  have nn: "0 < max_coord \<or> max_coord = 0" using max_coord_nonneg[OF assms] by linarith
  have A: "0 < max_coord \<longrightarrow>
            normalize_positions positions R = Inr (map (\<lambda>p. smul p (R / max_coord)) positions)
          \<and> (0 \<le> R \<longrightarrow> (\<forall>c \<in> set (coords (map (\<lambda>p. smul p (R / max_coord)) positions)). - R \<le> c \<and> c \<le> R))
          \<and> (\<exists>c \<in> set (coords (map (\<lambda>p. smul p (R / max_coord)) positions)). c = R \<or> c = - R)"
    using normalize_positions_pos[OF assms] scaled_bounds[OF assms] scaled_attains[OF assms]
    by blast
  have B: "max_coord = 0 \<longrightarrow> normalize_positions positions R = Inr positions"
    using normalize_positions_zero[OF assms] by simp
  obtain s where s: "normalize_positions positions R = Inr (map (\<lambda>p. smul p s) positions)"
  proof (cases "0 < max_coord")
    case True then show ?thesis using normalize_positions_pos[OF assms] that by blast
  next
    case False
    then have "normalize_positions positions R = Inr (map (\<lambda>p. smul p 1) positions)"
      using normalize_positions_zero[OF assms] by simp
    then show ?thesis using that by blast
  qed
  have C: "\<exists>s normalized.
            normalize_positions positions R = Inr normalized
          \<and> normalized = map (\<lambda>p. smul p s) positions
          \<and> (\<forall>i < length positions. \<forall>j < length positions.
              \<forall>k < length positions. \<forall>l < length positions.
                norm3 (normalized ! i - normalized ! j) * norm3 (positions ! k - positions ! l)
                  = norm3 (normalized ! k - normalized ! l) * norm3 (positions ! i - positions ! j)
              \<and> dot (normalized ! i - normalized ! j) (normalized ! k - normalized ! l)
                    * (norm3 (positions ! i - positions ! j) * norm3 (positions ! k - positions ! l))
                  = dot (positions ! i - positions ! j) (positions ! k - positions ! l)
                    * (norm3 (normalized ! i - normalized ! j) * norm3 (normalized ! k - normalized ! l)))"
    using s uniform_scaling[OF refl, of _ positions _ _ _ s] by blast
  show ?thesis using nn A B C by blast
qed

subsection \<open>A single node\<close>

lemma all_pairs_one [simp]: "all_pairs (Suc 0) = []"
  by (simp add: all_pairs_def)

lemma single_step:
  assumes "k \<noteq> 0"
  shows "iteration_step k (Suc 0) [] [] ([p], T) = Some ([p], T * 0.98)"
proof -
  have "displacement_field k (Suc 0) [p] [] [] = [0]"
    by (simp add: displacement_field_def)
  then show ?thesis
    using iteration_step_eq[OF assms, of "[p]" "Suc 0" "[]" "[]" T]
    by (simp add: moved_def)
qed

lemma single_simulate:
  assumes "k \<noteq> 0"
  shows "simulate (iteration_step k (Suc 0) [] []) t ([p], T) = Some ([p], T * 0.98 ^ t)"
  by (induction t arbitrary: T) (simp_all add: single_step[OF assms] mult.assoc)

lemma single_node_force_directed:
  "force_directed_3d [nd] [] iterations randn = Inr [smul (randn 0) 5]"
  by (simp add: force_directed_3d_def resolve_edges_def normalize_weights_def max_weight_of_def
        initial_positions_def single_simulate)

lemma vec3_zero_iff: "(p = Vec3 0 0 0) = (max \<bar>vz p\<bar> (max \<bar>vy p\<bar> \<bar>vx p\<bar>) = 0)"
  by (cases p) (auto simp: max_def)

lemma single_node_main:
  "main_positions [nd] [] randn =
     Inr [if randn 0 = Vec3 0 0 0 then Vec3 0 0 0
          else smul (smul (randn 0) 5)
                 (15 / max \<bar>vz (smul (randn 0) 5)\<bar>
                         (max \<bar>vy (smul (randn 0) 5)\<bar> \<bar>vx (smul (randn 0) 5)\<bar>))]"
proof (cases "randn 0 = Vec3 0 0 0")
  case True
  then show ?thesis
    by (simp add: main_positions_def single_node_force_directed normalize_positions_def
        coords_def smul_def)
next
  case False
  let ?p = "smul (randn 0) 5"
  have "?p \<noteq> Vec3 0 0 0" using False by (cases "randn 0") (simp add: smul_def)
  then have "max \<bar>vz ?p\<bar> (max \<bar>vy ?p\<bar> \<bar>vx ?p\<bar>) \<noteq> 0" by (simp only: vec3_zero_iff not_False_eq_True)
  moreover have "0 \<le> max \<bar>vz ?p\<bar> (max \<bar>vy ?p\<bar> \<bar>vx ?p\<bar>)" by simp
  ultimately have pos: "0 < max \<bar>vz ?p\<bar> (max \<bar>vy ?p\<bar> \<bar>vx ?p\<bar>)" by linarith
  have np: "np_max (map abs (coords [?p])) = Inr (max \<bar>vz ?p\<bar> (max \<bar>vy ?p\<bar> \<bar>vx ?p\<bar>))"
    by (simp add: coords_def)
  show ?thesis
    using False normalize_positions_pos[OF np pos, of 15]
    by (simp add: main_positions_def single_node_force_directed)
qed

text \<open>
  Claim C4, as amended. For one node and no edge the loop runs and leaves the node where the
  initial sample put it, at \<open>p0 = randn 0 * 5\<close>, for every iteration count. After the
  normalization to 15 the position is \<open>p0\<close> scaled by 15 over its largest absolute
  coordinate, and \<open>(0, 0, 0)\<close> when \<open>randn 0\<close> is \<open>(0, 0, 0)\<close>; no error and no non-finite
  value arises.
\<close>
theorem single_node_layout:
  "force_directed_3d [nd] [] iterations randn = Inr [smul (randn 0) 5]
   \<and> main_positions [nd] [] randn =
     Inr [if randn 0 = Vec3 0 0 0 then Vec3 0 0 0
          else smul (smul (randn 0) 5)
                 (15 / max \<bar>vz (smul (randn 0) 5)\<bar>
                         (max \<bar>vy (smul (randn 0) 5)\<bar> \<bar>vx (smul (randn 0) 5)\<bar>))]"
  using single_node_force_directed single_node_main by blast

text \<open>
  The claim as it was stated fails: with the sample \<open>(1, 0, 0)\<close> the single node ends at
  \<open>(15, 0, 0)\<close>.
\<close>
theorem single_node_not_origin:
  "main_positions [node_A] [] example_randn = Inr [Vec3 15 0 0]
   \<and> main_positions [node_A] [] example_randn \<noteq> Inr [Vec3 0 0 0]"
  by (simp add: single_node_main example_randn_def smul_def)

text \<open>
  Claim C9 as it was stated fails: the iteration count \<open>-5\<close> is accepted and positions are
  returned.
\<close>
theorem nonpositive_iterations_accepted:
  "force_directed_3d [node_A] [] (- 5) example_randn = Inr [Vec3 5 0 0]"
  by (simp add: single_node_force_directed example_randn_def smul_def)

subsection \<open>The properties at the example inputs\<close>

lemma node_id_examples [simp]: "node_id node_A = ''A''" "node_id node_B = ''B''"
  by (simp_all add: node_A_def node_B_def)

lemma id_to_idx_AB:
  "id_to_idx [node_A, node_B] = [''A'' \<mapsto> 0, ''B'' \<mapsto> 1]"
  by (simp add: id_to_idx_def node_A_def node_B_def)

lemma resolve_example:
  "resolve_edges (id_to_idx [node_A, node_B]) [edge_AB, edge_ghost, edge_BB] = ([(0, 1), (1, 1)], [2, 4])"
  by (simp add: id_to_idx_AB resolve_edges_def resolve_edge_def edge_AB_def edge_ghost_def edge_BB_def)

theorem displacements_sum_of_forces_witness:
  "(1::real) \<noteq> 0
   \<and> list_all (\<lambda>((i, j), w). i < 2 \<and> j < 2) (zip [(0::nat, 1::nat)] [1::real])
   \<and> (\<exists>displacements.
           accumulate_displacements 1 2 example_positions [(0, 1)] [1] = Some displacements
         \<and> length displacements = 2
         \<and> (\<forall>v < 2. displacements ! v
                    = specified_displacement 1 2 example_positions (zip [(0, 1)] [1]) v))"
  using displacements_sum_of_forces[of 1 "[(0, 1)]" "[1]" 2 example_positions] by simp

theorem normalize_positions_uniform_scaling_witness:
  "np_max (map abs (coords example_positions)) = Inr 4
   \<and> normalize_positions example_positions 15 = Inr [Vec3 0 0 0, Vec3 (45 / 4) 15 0]"
proof -
  have h: "np_max (map abs (coords example_positions)) = Inr 4"
    by (simp add: coords_def example_positions_def)
  show ?thesis
    using h normalize_positions_uniform_scaling[OF h, of 15]
    by (simp add: example_positions_def smul_def)
qed

theorem step_capped_by_temperature_witness:
  "(1::real) \<noteq> 0 \<and> length example_positions = 2
   \<and> (\<exists>positions'. simulate (iteration_step 1 2 [(0, 1)] [1]) (Suc 3) (example_positions, 10)
          = Some (positions', 10 * 0.98 ^ 3 * 0.98))"
proof -
  have h: "length example_positions = 2" by (simp add: example_positions_def)
  have k: "(1::real) \<noteq> 0" by simp
  show ?thesis
    using h step_capped_by_temperature[OF k h, of "[(0, 1)]" "[1]" 3] by auto
qed

theorem unresolved_edges_dropped_witness:
  "resolve_edges (id_to_idx [node_A, node_B]) [edge_AB, edge_ghost, edge_BB] = ([(0, 1), (1, 1)], [2, 4])
   \<and> force_directed_3d [node_A, node_B] [edge_AB, edge_ghost, edge_BB] 500 example_randn
     = force_directed_3d [node_A, node_B] [edge_AB, edge_BB] 500 example_randn"
  using unresolved_edges_dropped[of "[node_A, node_B]" "[edge_AB, edge_ghost, edge_BB]" 500 example_randn]
  by (simp add: id_to_idx_AB edge_AB_def edge_ghost_def edge_BB_def)

theorem normalized_weights_in_unit_interval_witness:
  "list_all (\<lambda>e. 0 < weight e) [edge_AB, edge_ghost, edge_BB]
   \<and> resolve_edges (id_to_idx [node_A, node_B]) [edge_AB, edge_ghost, edge_BB] = ([(0, 1), (1, 1)], [2, 4])
   \<and> normalize_weights [2, 4] = Inr [1 / 2, 1]"
proof -
  have h: "\<forall>e \<in> set [edge_AB, edge_ghost, edge_BB]. 0 < weight e"
    by (simp add: edge_AB_def edge_ghost_def edge_BB_def)
  show ?thesis
    using h resolve_example normalized_weights_in_unit_interval[OF h resolve_example]
    by (simp add: max_weight_of_def)
qed

theorem nonpositive_iterations_return_initial_witness:
  "(- 5::int) \<le> 0 \<and> [node_A, node_B] \<noteq> []
   \<and> normalize_weights (snd (resolve_edges (id_to_idx [node_A, node_B]) [edge_AB])) = Inr [1]
   \<and> force_directed_3d [node_A, node_B] [edge_AB] (- 5) example_randn = Inr [Vec3 5 0 0, Vec3 10 0 0]"
proof -
  have h: "normalize_weights (snd (resolve_edges (id_to_idx [node_A, node_B]) [edge_AB])) = Inr [1]"
    by (simp add: id_to_idx_AB resolve_edges_def resolve_edge_def edge_AB_def
        normalize_weights_def max_weight_of_def)
  have i: "(- 5::int) \<le> 0" and n: "[node_A, node_B] \<noteq> []" by simp_all
  show ?thesis
    using h nonpositive_iterations_return_initial[OF i n h, of example_randn]
    by (simp add: initial_positions_def example_randn_def smul_def upt_rec[of 0] upt_rec[of 1])
qed

theorem self_loop_no_force_witness:
  "id_to_idx [node_A, node_B] (source edge_BB) = Some 1
   \<and> id_to_idx [node_A, node_B] (target edge_BB) = Some 1
   \<and> resolve_edge (id_to_idx [node_A, node_B]) edge_BB ([(0, 1)], [2]) = ([(0, 1), (1, 1)], [2, 4])
   \<and> attract 1 example_positions ((1, 1), 1) [0, 0] = Some [0, 0]
   \<and> length [(0::nat, 1::nat)] = length [1 / 2 :: real]
   \<and> attraction 1 example_positions ([(0, 1)] @ (1, 1) # []) ([1 / 2] @ 1 # []) [0, 0]
       = attraction 1 example_positions ([(0, 1)] @ []) ([1 / 2] @ []) [0, 0]
   \<and> max_weight_of (snd (resolve_edges (id_to_idx [node_A, node_B]) ([edge_BA] @ edge_BB # [])))
       = max_weight_of (snd (resolve_edges (id_to_idx [node_A, node_B]) ([edge_BA] @ [])))
   \<and> force_directed_3d [node_A, node_B] ([edge_BA] @ edge_BB # []) 500 example_randn
       = force_directed_3d [node_A, node_B] ([edge_BA] @ []) 500 example_randn"
proof -
  have s: "id_to_idx [node_A, node_B] (source edge_BB) = Some 1"
    and t: "id_to_idx [node_A, node_B] (target edge_BB) = Some 1"
    by (simp_all add: id_to_idx_AB edge_BB_def)
  have m: "max_weight_of (snd (resolve_edges (id_to_idx [node_A, node_B]) ([edge_BA] @ edge_BB # [])))
       = max_weight_of (snd (resolve_edges (id_to_idx [node_A, node_B]) ([edge_BA] @ [])))"
    by (simp add: id_to_idx_AB resolve_edges_def resolve_edge_def edge_BA_def edge_BB_def
        max_weight_of_def)
  show ?thesis
    using s t m
      self_loop_no_force[OF s t, of "[(0, 1)]" "[2]" 1 example_positions 1 "[0, 0]"
        "[(0, 1)]" "[1 / 2]" "[]" "[]" "[edge_BA]" "[]" 500 example_randn]
    by (simp add: edge_BB_def)
qed

subsection \<open>A self-loop heavier than the other edges\<close>

lemma norm3_x_axis: "norm3 (Vec3 x 0 0) = \<bar>x\<bar>"
  by (simp add: norm3_def)

lemma two_node_field:
  assumes "k \<noteq> 0"
  shows "displacement_field k (Suc (Suc 0)) [Vec3 5 0 0, Vec3 10 0 0] [(0, Suc 0)] [w]
       = [Vec3 (25 / k * (1 / 2 + w / 2) - k * k / 5) 0 0,
          Vec3 (k * k / 5 - 25 / k * (1 / 2 + w / 2)) 0 0]"
  using assms
  by (simp add: displacement_field_def all_pairs_def add_sub_def repulsive_force_def attractive_force_def
         minus_vec3_def plus_vec3_def zero_vec3_def smul_def norm3_x_axis power2_eq_square Let_def)

lemma sqrt_50_bounds: "5 / 2 < sqrt 50" "sqrt 50 \<noteq> 0" "sqrt 50 * sqrt 50 = 50"
proof -
  show "5 / 2 < sqrt 50" by (rule real_less_rsqrt) (simp add: power2_eq_square)
  then show "sqrt 50 \<noteq> 0" by simp
  show "sqrt 50 * sqrt 50 = 50" by simp
qed

lemma two_node_step:
  assumes "0 \<le> w" and "w \<le> 1"
  shows "iteration_step (sqrt 50) (Suc (Suc 0)) [(0, Suc 0)] [w] ([Vec3 5 0 0, Vec3 10 0 0], 10)
       = Some ([Vec3 (25 / sqrt 50 * (1 / 2 + w / 2) - 5) 0 0,
                Vec3 (20 - 25 / sqrt 50 * (1 / 2 + w / 2)) 0 0], 10 * 0.98)"
proof -
  let ?a = "25 / sqrt 50 * (1 / 2 + w / 2)"
  have pos: "0 < ?a" using assms sqrt_50_bounds(1) by (intro mult_pos_pos divide_pos_pos) simp_all
  have "25 / sqrt 50 < 10" using sqrt_50_bounds(1) by (simp add: field_simps)
  moreover have "1 / 2 + w / 2 \<le> 1" using assms by simp
  ultimately have "?a < 10 * 1"
    using assms by (intro mult_less_le_imp_less) simp_all
  then have lt: "?a < 10" by simp
  have kk: "sqrt 50 * sqrt 50 / 5 = 10" by simp
  have D: "displacement_field (sqrt 50) (Suc (Suc 0)) [Vec3 5 0 0, Vec3 10 0 0] [(0, Suc 0)] [w]
       = [Vec3 (?a - 10) 0 0, Vec3 (10 - ?a) 0 0]"
    by (simp only: two_node_field[OF sqrt_50_bounds(2)] kk)
  have m0: "moved 10 [Vec3 (?a - 10) 0 0, Vec3 (10 - ?a) 0 0] [Vec3 5 0 0, Vec3 10 0 0] 0
       = Vec3 (?a - 5) 0 0"
    using pos lt by (simp add: moved_def norm3_x_axis smul_def plus_vec3_def Let_def)
  have m1: "moved 10 [Vec3 (?a - 10) 0 0, Vec3 (10 - ?a) 0 0] [Vec3 5 0 0, Vec3 10 0 0] (Suc 0)
       = Vec3 (20 - ?a) 0 0"
    using pos lt by (simp add: moved_def norm3_x_axis smul_def plus_vec3_def Let_def)
  have u: "[0..<Suc (Suc 0)] = [0, Suc 0]" by (simp add: upt_rec)
  have "iteration_step (sqrt 50) (Suc (Suc 0)) [(0, Suc 0)] [w] ([Vec3 5 0 0, Vec3 10 0 0], 10)
      = Some (map (moved 10 (displacement_field (sqrt 50) (Suc (Suc 0)) [Vec3 5 0 0, Vec3 10 0 0]
                      [(0, Suc 0)] [w]) [Vec3 5 0 0, Vec3 10 0 0]) [0..<Suc (Suc 0)], 10 * 0.98)"
    by (rule iteration_step_eq[OF sqrt_50_bounds(2)]) simp
  also have "\<dots> = Some ([Vec3 (?a - 5) 0 0, Vec3 (20 - ?a) 0 0], 10 * 0.98)"
    by (simp only: D u list.map m0 m1)
  finally show ?thesis .
qed

lemma layout_AB:
  "force_directed_3d [node_A, node_B] [edge_AB] 1 example_randn
     = Inr [Vec3 (25 / sqrt 50 - 5) 0 0, Vec3 (20 - 25 / sqrt 50) 0 0]"
proof -
  have r: "resolve_edges (id_to_idx [node_A, node_B]) [edge_AB] = ([(0, 1)], [2])"
    by (simp add: id_to_idx_AB resolve_edges_def resolve_edge_def edge_AB_def)
  have n: "normalize_weights [2] = Inr [1]"
    by (simp add: normalize_weights_def max_weight_of_def)
  have i: "initial_positions (Suc (Suc 0)) example_randn = [Vec3 5 0 0, Vec3 10 0 0]"
    by (simp add: initial_positions_def example_randn_def smul_def upt_rec)
  show ?thesis
    using two_node_step[of 1]
    by (simp add: force_directed_3d_def r n i Let_def)
qed

lemma layout_AB_BB:
  "force_directed_3d [node_A, node_B] [edge_AB, edge_BB] 1 example_randn
     = Inr [Vec3 (25 / sqrt 50 * (3 / 4) - 5) 0 0, Vec3 (20 - 25 / sqrt 50 * (3 / 4)) 0 0]"
proof -
  have r: "resolve_edges (id_to_idx [node_A, node_B]) [edge_AB, edge_BB] = ([(0, 1), (1, 1)], [2, 4])"
    by (simp add: id_to_idx_AB resolve_edges_def resolve_edge_def edge_AB_def edge_BB_def)
  have n: "normalize_weights [2, 4] = Inr [1 / 2, 1]"
    by (simp add: normalize_weights_def max_weight_of_def)
  have i: "initial_positions (Suc (Suc 0)) example_randn = [Vec3 5 0 0, Vec3 10 0 0]"
    by (simp add: initial_positions_def example_randn_def smul_def upt_rec)
  have s: "iteration_step k n [(0, Suc 0), (Suc 0, Suc 0)] [1 / 2, 1]
      = iteration_step k n [(0, Suc 0)] [1 / 2]" for k n
    using iteration_step_self_loop[of "[(0, Suc 0)]" "[1 / 2]" k n "Suc 0" "[]" 1 "[]"] by simp
  show ?thesis
    using two_node_step[of "1 / 2"]
    by (simp add: force_directed_3d_def r n i s Let_def)
qed


text \<open>
  Claim C10 as it was stated fails: with the nodes A and B and the edge A-B of weight 2, the
  self-loop B-B of weight 4 halves the normalized weight of A-B, and after one iteration
  the positions differ from those without the self-loop.
\<close>
theorem self_loop_changes_layout:
  "force_directed_3d [node_A, node_B] [edge_AB, edge_BB] 1 example_randn
     \<noteq> force_directed_3d [node_A, node_B] [edge_AB] 1 example_randn"
  using sqrt_50_bounds(2) by (simp add: layout_AB layout_AB_BB field_simps)

end
